theory Spec2Isabelle
  imports Main "HOL-Library.Multiset" "HOL-Library.List_Lexorder" "HOL-Library.Char_ord"
    "HOL-Library.Word"
begin

section \<open>JavaScript values found in a settings module\<close>

text \<open>
  A \<^verbatim>\<open>_settings.js\<close> module exports a value as \<^verbatim>\<open>default\<close>. The generator reads six
  properties of it and tests each with JavaScript truthiness. Property values are modelled
  as primitives: \<open>Num n\<close> is the number \<open>sint n\<close>, an integer from \<open>- 2 ^ 53\<close> up to
  \<open>2 ^ 53 - 1\<close>, which the runtime holds exactly and prints with all its digits; \<open>NaN\<close> is
  the not-a-number value. Strings are lists of 8-bit characters, so a character stands for
  a code unit below 256.
\<close>

datatype jsprim = Undefined | Null | Bool bool | Num "54 word" | NaN | Str string

datatype jsval = Prim jsprim | Obj "(string \<times> jsprim) list"

text \<open>ToBoolean on primitives: \<^verbatim>\<open>undefined\<close>, \<^verbatim>\<open>null\<close>, \<^verbatim>\<open>false\<close>, \<^verbatim>\<open>0\<close>, \<^verbatim>\<open>NaN\<close>
  and \<^verbatim>\<open>""\<close> are falsy; every object is truthy.\<close>

fun truthy :: "jsprim \<Rightarrow> bool" where
  "truthy Undefined = False"
| "truthy Null = False"
| "truthy (Bool b) = b"
| "truthy (Num n) = (n \<noteq> 0)"
| "truthy NaN = False"
| "truthy (Str s) = (s \<noteq> [])"

fun truthy_val :: "jsval \<Rightarrow> bool" where
  "truthy_val (Prim p) = truthy p"
| "truthy_val (Obj ps) = True"

text \<open>The operator \<^verbatim>\<open>a || b\<close> on primitives.\<close>

definition js_or :: "jsprim \<Rightarrow> jsprim \<Rightarrow> jsprim" where
  "js_or a b = (if truthy a then a else b)"

text \<open>Property read \<^verbatim>\<open>settings.key\<close>: an own property of the object, \<^verbatim>\<open>undefined\<close> when
  the key is missing. A truthy primitive (a string, a number, \<^verbatim>\<open>true\<close>) has none of the
  six keys the generator reads.\<close>

fun getProp :: "jsval \<Rightarrow> string \<Rightarrow> jsprim" where
  "getProp (Obj ps) k = (case map_of ps k of Some v \<Rightarrow> v | None \<Rightarrow> Undefined)"
| "getProp (Prim p) k = Undefined"

text \<open>ToString on primitives, as \<^verbatim>\<open>String.prototype.localeCompare\<close> applies it to its
  argument.\<close>

fun digits :: "nat \<Rightarrow> string" where
  "digits n = (if n < 10 then [char_of (48 + n)] else digits (n div 10) @ [char_of (48 + n mod 10)])"

fun ToString :: "jsprim \<Rightarrow> string" where
  "ToString Undefined = ''undefined''"
| "ToString Null = ''null''"
| "ToString (Bool b) = (if b then ''true'' else ''false'')"
| "ToString (Num n) =
     (if sint n < 0 then CHR ''-'' # digits (nat (- sint n)) else digits (nat (sint n)))"
| "ToString NaN = ''NaN''"
| "ToString (Str s) = s"

section \<open>The file system read by the generator\<close>

text \<open>
  A directory is the list of its entries as \<^verbatim>\<open>fs.readdirSync\<close> enumerates them. A file
  carries what a dynamic \<^verbatim>\<open>import()\<close> of it yields: the module's default export
  (\<open>Prim Undefined\<close> when it has none), or the value thrown while loading. A module can
  throw \<^verbatim>\<open>null\<close> or \<^verbatim>\<open>undefined\<close>, of which no property can be read; of any other
  thrown value \<open>ThrownOther\<close> keeps the text \<^verbatim>\<open>console.warn\<close> shows for its \<^verbatim>\<open>message\<close>.
\<close>

datatype thrown = ThrownNull | ThrownUndefined | ThrownOther string

datatype import_result = Throws thrown | Module jsval

datatype fsentry = File import_result | Dir "(string \<times> fsentry) list"

type_synonym entries = "(string \<times> fsentry) list"

text \<open>The exceptions: a TypeError for a call of something that is no function or for a
  property read of \<^verbatim>\<open>null\<close> or \<^verbatim>\<open>undefined\<close>, and the errors of \<^verbatim>\<open>fs\<close>.\<close>

datatype type_error = NotAFunction string | PropertyOfNullish jsprim string

datatype js_error = TypeError type_error | FsError string

text \<open>
  The console. \<open>WarnLoad settingsPath m\<close> is the call
  \<^verbatim>\<open>console.warn(`Failed to load settings from ${settingsPath}:`, error.message)\<close>. The
  message of the error raised by the import of a directory is the loader's and names paths
  of the installation; it is kept as \<open>DirectoryImport\<close>.
\<close>

datatype message = Message string | DirectoryImport

datatype console = Warn string | WarnLoad string message | Log string

fun isDirectory :: "fsentry \<Rightarrow> bool" where
  "isDirectory (Dir es) = True"
| "isDirectory (File r) = False"

fun startsWith :: "string \<Rightarrow> char \<Rightarrow> bool" where
  "startsWith [] c = False"
| "startsWith (x # xs) c = (x = c)"

text \<open>\<^verbatim>\<open>path.join\<close> of a normalised path and a plain entry name.\<close>

definition path_join :: "string \<Rightarrow> string \<Rightarrow> string" where
  "path_join a b = a @ ''/'' @ b"

text \<open>The entries of the subdirectory \<open>s\<close>, as \<^verbatim>\<open>readdirSync(path.join(dirPath, s))\<close> reads
  them; the names in a directory are unique, so \<open>s\<close> names one directory.\<close>

fun readdir :: "entries \<Rightarrow> string \<Rightarrow> entries option" where
  "readdir [] s = None"
| "readdir ((n, Dir ces) # es) s = (if n = s then Some ces else readdir es s)"
| "readdir ((n, File r) # es) s = readdir es s"

section \<open>The compiled tree\<close>

text \<open>A Node object; an optional field is \<open>None\<close> when the key is not set on the object.\<close>

datatype node = Node
  (name: jsprim)
  (description: jsprim)
  (nodeColor: "jsprim option")
  (owner: "jsprim option")
  (contact: "jsprim option")
  (leafSize: "jsprim option")
  (children: "node list option")

definition LEAF_SIZE :: "54 word" where
  "LEAF_SIZE = 1000"

section \<open>formatNodeName\<close>

text \<open>
  \<^verbatim>\<open>folderName.replace(/-/g, " ").replace(/\b\w/g, (char) => char.toUpperCase())\<close>.
  The class \<^verbatim>\<open>\w\<close> is \<^verbatim>\<open>[A-Za-z0-9_]\<close>; \<^verbatim>\<open>\b\w\<close> matches a word character that has no word
  character before it. \<open>capitalize prev s\<close> scans \<open>s\<close>, \<open>prev\<close> telling whether the
  character before is a word character.
\<close>

definition isWordChar :: "char \<Rightarrow> bool" where
  "isWordChar c = ((CHR ''a'' \<le> c \<and> c \<le> CHR ''z'') \<or> (CHR ''A'' \<le> c \<and> c \<le> CHR ''Z'')
     \<or> (CHR ''0'' \<le> c \<and> c \<le> CHR ''9'') \<or> c = CHR ''_'')"

definition toUpperCase :: "char \<Rightarrow> char" where
  "toUpperCase c = (if CHR ''a'' \<le> c \<and> c \<le> CHR ''z'' then char_of (of_char c - (32::nat)) else c)"

definition replaceHyphens :: "string \<Rightarrow> string" where
  "replaceHyphens s = map (\<lambda>c. if c = CHR ''-'' then CHR '' '' else c) s"

fun capitalize :: "bool \<Rightarrow> string \<Rightarrow> string" where
  "capitalize prev [] = []"
| "capitalize prev (c # cs) =
     (if isWordChar c \<and> \<not> prev then toUpperCase c else c) # capitalize (isWordChar c) cs"

definition formatNodeName :: "string \<Rightarrow> string" where
  "formatNodeName folderName = capitalize False (replaceHyphens folderName)"

section \<open>Array.prototype.sort with a comparator\<close>

text \<open>
  \<^verbatim>\<open>children.sort((a, b) => a.name.localeCompare(b.name))\<close>. The sort is stable; the
  language leaves the sequence of comparator calls to the engine. It is modelled as an
  insertion sort that calls the comparator with the element being inserted first; a
  comparator that throws aborts the sort. With a consistent comparator every stable sort
  returns the same array.
  \<^verbatim>\<open>localeCompare\<close> itself is a built-in of the runtime and a parameter \<open>lc\<close> of the model.
\<close>

fun insertBy :: "('a \<Rightarrow> 'a \<Rightarrow> js_error + int) \<Rightarrow> 'a \<Rightarrow> 'a list \<Rightarrow> js_error + 'a list" where
  "insertBy cmp x [] = Inr [x]"
| "insertBy cmp x (y # ys) =
     (case cmp x y of
        Inl e \<Rightarrow> Inl e
      | Inr order \<Rightarrow>
          if order < 0 then Inr (x # y # ys)
          else (case insertBy cmp x ys of Inl e \<Rightarrow> Inl e | Inr zs \<Rightarrow> Inr (y # zs)))"

fun sortLoop :: "('a \<Rightarrow> 'a \<Rightarrow> js_error + int) \<Rightarrow> 'a list \<Rightarrow> 'a list \<Rightarrow> js_error + 'a list" where
  "sortLoop cmp acc [] = Inr acc"
| "sortLoop cmp acc (x # xs) =
     (case insertBy cmp x acc of Inl e \<Rightarrow> Inl e | Inr acc' \<Rightarrow> sortLoop cmp acc' xs)"

definition array_sort :: "('a \<Rightarrow> 'a \<Rightarrow> js_error + int) \<Rightarrow> 'a list \<Rightarrow> js_error + 'a list" where
  "array_sort cmp xs = sortLoop cmp [] xs"

text \<open>The comparator \<^verbatim>\<open>(a, b) => a.name.localeCompare(b.name)\<close>: only a string has the
  method.\<close>

definition compareNames :: "(string \<Rightarrow> string \<Rightarrow> int) \<Rightarrow> node \<Rightarrow> node \<Rightarrow> js_error + int" where
  "compareNames lc a b =
     (case name a of
        Str s \<Rightarrow> Inr (lc s (ToString (name b)))
      | _ \<Rightarrow> Inl (TypeError (NotAFunction ''a.name.localeCompare'')))"

section \<open>buildFromDirectory\<close>

text \<open>
  Loading \<^verbatim>\<open>_settings.js\<close>: \<open>{}\<close> when the file is missing, when the default export is
  falsy, and when the import throws, which the \<^verbatim>\<open>catch\<close> block reports with a warning. The
  block reads \<^verbatim>\<open>error.message\<close>: when the thrown value is \<^verbatim>\<open>null\<close> or \<^verbatim>\<open>undefined\<close> that
  read raises a TypeError, nothing is logged and the exception leaves the function. An
  entry of that name that is a directory cannot be imported either.
\<close>

definition loadSettings :: "entries \<Rightarrow> string \<Rightarrow> console list \<times> (js_error + jsval)" where
  "loadSettings es settingsPath =
     (case map_of es ''_settings.js'' of
        None \<Rightarrow> ([], Inr (Obj []))
      | Some (File (Module d)) \<Rightarrow> ([], Inr (if truthy_val d then d else Obj []))
      | Some (File (Throws ThrownNull)) \<Rightarrow>
          ([], Inl (TypeError (PropertyOfNullish Null ''message'')))
      | Some (File (Throws ThrownUndefined)) \<Rightarrow>
          ([], Inl (TypeError (PropertyOfNullish Undefined ''message'')))
      | Some (File (Throws (ThrownOther msg))) \<Rightarrow>
          ([WarnLoad settingsPath (Message msg)], Inr (Obj []))
      | Some (Dir ces) \<Rightarrow> ([WarnLoad settingsPath DirectoryImport], Inr (Obj [])))"

text \<open>\<^verbatim>\<open>if (settings.key) node.key = settings.key\<close>.\<close>

definition ifSet :: "jsprim \<Rightarrow> jsprim option" where
  "ifSet v = (if truthy v then Some v else None)"

definition subdirNames :: "entries \<Rightarrow> string list" where
  "subdirNames es =
     sort (map fst (filter (\<lambda>(n, e). isDirectory e \<and> \<not> startsWith n CHR ''.'' \<and> n \<noteq> ''node_modules'') es))"

text \<open>
  \<open>buildFromDirectory lc es dirPath nodeName\<close> compiles the directory at \<open>dirPath\<close> whose
  entries are \<open>es\<close>; \<open>buildChildren\<close> is its loop over the sorted subdirectory names. The
  result pairs the lines written to the console with the Node, or with the exception that
  ended the call.
\<close>

function buildFromDirectory ::
    "(string \<Rightarrow> string \<Rightarrow> int) \<Rightarrow> entries \<Rightarrow> string \<Rightarrow> string \<Rightarrow> console list \<times> (js_error + node)"
  and buildChildren ::
    "(string \<Rightarrow> string \<Rightarrow> int) \<Rightarrow> entries \<Rightarrow> string \<Rightarrow> string list \<Rightarrow> console list \<times> (js_error + node list)"
where
  "buildFromDirectory lc es dirPath nodeName =
     (let settingsPath = path_join dirPath ''_settings.js'';
          loaded = loadSettings es settingsPath
      in case snd loaded of
           Inl e \<Rightarrow> (fst loaded, Inl e)
         | Inr settings \<Rightarrow>
            (let nm = js_or (getProp settings ''name'') (Str (formatNodeName nodeName));
                 ds = js_or (getProp settings ''description'')
                        (Str (formatNodeName nodeName @ '' segment''));
                 co = ifSet (getProp settings ''nodeColor'');
                 ow = ifSet (getProp settings ''owner'');
                 ct = ifSet (getProp settings ''contact'');
                 subdirs = subdirNames es
             in if subdirs = []
                then (fst loaded,
                      Inr (Node nm ds co ow ct
                             (Some (js_or (getProp settings ''size'') (Num LEAF_SIZE))) None))
                else (case buildChildren lc es dirPath subdirs of
                        (w, Inl e) \<Rightarrow> (fst loaded @ w, Inl e)
                      | (w, Inr cs) \<Rightarrow>
                          (case array_sort (compareNames lc) cs of
                             Inl e \<Rightarrow> (fst loaded @ w, Inl e)
                           | Inr cs' \<Rightarrow>
                               (fst loaded @ w, Inr (Node nm ds co ow ct None (Some cs')))))))"
| "buildChildren lc es dirPath [] = ([], Inr [])"
| "buildChildren lc es dirPath (subdir # rest) =
     (case readdir es subdir of
        None \<Rightarrow> ([], Inl (FsError (''ENOENT: '' @ path_join dirPath subdir)))
      | Some ces \<Rightarrow>
          (case buildFromDirectory lc ces (path_join dirPath subdir) subdir of
             (w, Inl e) \<Rightarrow> (w, Inl e)
           | (w, Inr childNode) \<Rightarrow>
               (case buildChildren lc es dirPath rest of
                  (w', Inl e) \<Rightarrow> (w @ w', Inl e)
                | (w', Inr cs) \<Rightarrow> (w @ w', Inr (childNode # cs)))))"
  by pat_completeness auto
termination
proof -
  have sz: "\<And>es s ces. readdir es s = Some ces \<Longrightarrow>
      size_list (size_prod (\<lambda>x. 0) size) ces < size_list (size_prod (\<lambda>x. 0) size) es"
    subgoal for es s ces
      by (induction es s rule: readdir.induct) (auto split: if_splits)
    done
  show ?thesis
    by (relation "measures
        [\<lambda>x. case x of Inl (lc, es, p, n) \<Rightarrow> size_list (size_prod (\<lambda>x. 0) size) es
                     | Inr (lc, es, p, ss) \<Rightarrow> size_list (size_prod (\<lambda>x. 0) size) es,
         \<lambda>x. case x of Inl (lc, es, p, n) \<Rightarrow> 1 | Inr (lc, es, p, ss) \<Rightarrow> 0,
         \<lambda>x. case x of Inl (lc, es, p, n) \<Rightarrow> 0 | Inr (lc, es, p, ss) \<Rightarrow> length ss]")
       (auto dest: sz)
qed

declare buildFromDirectory.simps [simp del]

text \<open>The settings object a directory ends up with (\<^verbatim>\<open>settings\<close> in the source), \<open>{}\<close>
  also where loading ends in an exception.\<close>

definition settingsOf :: "entries \<Rightarrow> jsval" where
  "settingsOf es = (case snd (loadSettings es []) of Inr settings \<Rightarrow> settings | Inl e \<Rightarrow> Obj [])"

text \<open>The Node object once the settings are merged, before \<^verbatim>\<open>size\<close> or \<^verbatim>\<open>children\<close> is
  set.\<close>

definition nodeOf :: "jsval \<Rightarrow> string \<Rightarrow> jsprim option \<Rightarrow> node list option \<Rightarrow> node" where
  "nodeOf settings nodeName sz ch =
     Node (js_or (getProp settings ''name'') (Str (formatNodeName nodeName)))
          (js_or (getProp settings ''description'') (Str (formatNodeName nodeName @ '' segment'')))
          (ifSet (getProp settings ''nodeColor''))
          (ifSet (getProp settings ''owner''))
          (ifSet (getProp settings ''contact''))
          sz ch"

text \<open>Every Node of a tree, the root first.\<close>

fun subnodes :: "node \<Rightarrow> node list" where
  "subnodes (Node nm ds co ow ct sz None) = [Node nm ds co ow ct sz None]"
| "subnodes (Node nm ds co ow ct sz (Some cs)) =
     Node nm ds co ow ct sz (Some cs) # concat (map subnodes cs)"

section \<open>getViewDirectories and generateAll\<close>

text \<open>\<open>root\<close> is what the file system holds at \<open>dataDir\<close>: nothing, a file or a directory.
  \<^verbatim>\<open>readdirSync\<close> of a file throws.\<close>

definition getViewDirectories :: "fsentry option \<Rightarrow> string \<Rightarrow> console list \<times> (js_error + string list)" where
  "getViewDirectories root dataDir =
     (case root of
        None \<Rightarrow> ([Warn (''Data directory not found: '' @ dataDir)], Inr [])
      | Some (File r) \<Rightarrow> ([], Inl (FsError (''ENOTDIR: '' @ dataDir)))
      | Some (Dir es) \<Rightarrow>
          ([], Inr (sort (map fst (filter (\<lambda>(n, e). isDirectory e \<and> \<not> startsWith n CHR ''.'') es)))))"

text \<open>
  The value handed to \<^verbatim>\<open>JSON.stringify\<close>: a Node as the object it is, its keys in the
  order the source sets them, a key absent when the field is not set. \<^verbatim>\<open>JSON.stringify\<close>
  is a built-in of the runtime and a parameter \<open>stringify\<close> of the model.
\<close>

datatype json = JPrim jsprim | JArray "json list" | JObject "(string \<times> json) list"

definition optField :: "string \<Rightarrow> jsprim option \<Rightarrow> (string \<times> json) list" where
  "optField k v = (case v of None \<Rightarrow> [] | Some x \<Rightarrow> [(k, JPrim x)])"

fun nodeToJson :: "node \<Rightarrow> json" where
  "nodeToJson (Node nm ds co ow ct sz ch) =
     JObject ([(''name'', JPrim nm), (''description'', JPrim ds)]
       @ optField ''nodeColor'' co @ optField ''owner'' ow @ optField ''contact'' ct
       @ optField ''size'' sz
       @ (case ch of None \<Rightarrow> [] | Some cs \<Rightarrow> [(''children'', JArray (map nodeToJson cs))]))"

fun objectKeys :: "json \<Rightarrow> string list" where
  "objectKeys (JObject ps) = map fst ps"
| "objectKeys (JArray xs) = []"
| "objectKeys (JPrim p) = []"

text \<open>
  \<^verbatim>\<open>generatedViews[viewName] = viewData\<close>. The keys of an object are listed with the array
  indices first, in numeric order, then the other keys in the order they were added; an
  array index is the decimal numeral, without leading zero, of an integer below
  \<open>2 ^ 32 - 1\<close>. An existing key keeps its place.
\<close>

definition isDigit :: "char \<Rightarrow> bool" where
  "isDigit c = (CHR ''0'' \<le> c \<and> c \<le> CHR ''9'')"

fun canonicalNumeral :: "string \<Rightarrow> bool" where
  "canonicalNumeral [] = False"
| "canonicalNumeral [c] = isDigit c"
| "canonicalNumeral (c # cs) = (isDigit c \<and> c \<noteq> CHR ''0'' \<and> list_all isDigit cs)"

definition indexValue :: "string \<Rightarrow> int" where
  "indexValue k = foldl (\<lambda>n c. 10 * n + (of_char c - 48)) 0 k"

definition isArrayIndex :: "string \<Rightarrow> bool" where
  "isArrayIndex k = (canonicalNumeral k \<and> indexValue k < 4294967295)"

fun insertIndex :: "(string \<times> 'a) list \<Rightarrow> string \<Rightarrow> 'a \<Rightarrow> (string \<times> 'a) list" where
  "insertIndex [] k v = [(k, v)]"
| "insertIndex ((k', v') # ps) k v =
     (if isArrayIndex k' \<and> indexValue k' < indexValue k then (k', v') # insertIndex ps k v
      else (k, v) # (k', v') # ps)"

definition setProp :: "(string \<times> 'a) list \<Rightarrow> string \<Rightarrow> 'a \<Rightarrow> (string \<times> 'a) list" where
  "setProp ps k v =
     (if map_of ps k \<noteq> None then map (\<lambda>(k', v'). if k' = k then (k', v) else (k', v')) ps
      else if isArrayIndex k then insertIndex ps k v
      else ps @ [(k, v)])"

datatype effect = Mkdir string | WriteFile string string

definition moduleText :: "(json \<Rightarrow> string) \<Rightarrow> json \<Rightarrow> string" where
  "moduleText stringify v = ''export default '' @ stringify v @ '';'' @ [CHR 0x0A]"

text \<open>The loop \<^verbatim>\<open>for (const viewName of views)\<close>; \<open>es\<close> are the entries of the data
  directory and \<open>generatedViews\<close> the object filled so far. An exception leaves the files
  already written.\<close>

fun generateViews ::
    "(string \<Rightarrow> string \<Rightarrow> int) \<Rightarrow> (json \<Rightarrow> string) \<Rightarrow> entries \<Rightarrow> string \<Rightarrow> string
     \<Rightarrow> (string \<times> node) list \<Rightarrow> string list
     \<Rightarrow> console list \<times> effect list \<times> (js_error + (string \<times> node) list)" where
  "generateViews lc stringify es dataDir outputDir generatedViews [] = ([], [], Inr generatedViews)"
| "generateViews lc stringify es dataDir outputDir generatedViews (viewName # views) =
     (case readdir es viewName of
        None \<Rightarrow> ([], [], Inl (FsError (''ENOENT: '' @ path_join dataDir viewName)))
      | Some ves \<Rightarrow>
          (case buildFromDirectory lc ves (path_join dataDir viewName) viewName of
             (w, Inl e) \<Rightarrow> (w, [], Inl e)
           | (w, Inr viewData) \<Rightarrow>
               (let outputPath = path_join outputDir (viewName @ ''.js'');
                    jsContent = moduleText stringify (nodeToJson viewData)
                in case generateViews lc stringify es dataDir outputDir
                          (setProp generatedViews viewName viewData) views of
                     (w', fx, r) \<Rightarrow>
                       (w @ [Log (''Generated: '' @ outputPath)] @ w',
                        WriteFile outputPath jsContent # fx, r))))"

text \<open>\<open>outputExists\<close> is \<^verbatim>\<open>fs.existsSync(outputDir)\<close>; the output directory lies outside
  the data directory.\<close>

definition generateAll ::
    "(string \<Rightarrow> string \<Rightarrow> int) \<Rightarrow> (json \<Rightarrow> string) \<Rightarrow> fsentry option \<Rightarrow> string \<Rightarrow> string \<Rightarrow> bool
     \<Rightarrow> console list \<times> effect list \<times> (js_error + (string \<times> node) list)" where
  "generateAll lc stringify root dataDir outputDir outputExists =
     (let mk = (if outputExists then [] else [Mkdir outputDir]);
          es = (case root of Some (Dir es) \<Rightarrow> es | _ \<Rightarrow> [])
      in case getViewDirectories root dataDir of
           (w, Inl e) \<Rightarrow> (w, mk, Inl e)
         | (w, Inr views) \<Rightarrow>
             (case generateViews lc stringify es dataDir outputDir [] views of
                (w', fx, Inl e) \<Rightarrow> (w @ w', mk @ fx, Inl e)
              | (w', fx, Inr generatedViews) \<Rightarrow>
                  (let indexPath = path_join outputDir ''index.js'';
                       jsContent = moduleText stringify
                                     (JObject (map (\<lambda>(k, v). (k, nodeToJson v)) generatedViews))
                   in (w @ w' @ [Log (''Generated: '' @ indexPath)],
                       mk @ fx @ [WriteFile indexPath jsContent],
                       Inr generatedViews))))"

section \<open>Notions used to state the properties\<close>

text \<open>What the properties need of \<^verbatim>\<open>localeCompare\<close> as a consistent comparator: a result
  that is not negative is not positive once the arguments are swapped, and \<open>\<le> 0\<close> is
  transitive.\<close>

definition consistentComparator :: "(string \<Rightarrow> string \<Rightarrow> int) \<Rightarrow> bool" where
  "consistentComparator lc =
     ((\<forall>a b. 0 \<le> lc a b \<longrightarrow> lc b a \<le> 0) \<and> (\<forall>a b c. lc a b \<le> 0 \<and> lc b c \<le> 0 \<longrightarrow> lc a c \<le> 0))"

text \<open>\<open>a.name\<close> is at most \<open>b.name\<close> under \<open>lc\<close>.\<close>

definition nameLe :: "(string \<Rightarrow> string \<Rightarrow> int) \<Rightarrow> node \<Rightarrow> node \<Rightarrow> bool" where
  "nameLe lc a b = (lc (ToString (name a)) (ToString (name b)) \<le> 0)"

text \<open>One consistent comparator, comparing code units; it instantiates \<open>lc\<close> in examples.\<close>

definition ordinalCompare :: "string \<Rightarrow> string \<Rightarrow> int" where
  "ordinalCompare a b = (if a < b then -1 else if a = b then 0 else 1)"

text \<open>The two-level tree of the scenario: \<^verbatim>\<open>ViewA/Alpha\<close> without metadata and
  \<^verbatim>\<open>ViewA/Beta\<close> with \<^verbatim>\<open>{description: "b"}\<close>, enumerated Beta first.\<close>

definition ViewA :: entries where
  "ViewA = [(''Beta'', Dir [(''_settings.js'', File (Module (Obj [(''description'', Str ''b'')])))]),
            (''Alpha'', Dir [])]"

definition AlphaNode :: node where
  "AlphaNode = Node (Str ''Alpha'') (Str ''Alpha segment'') None None None (Some (Num 1000)) None"

definition BetaNode :: node where
  "BetaNode = Node (Str ''Beta'') (Str ''b'') None None None (Some (Num 1000)) None"

definition ViewANode :: node where
  "ViewANode = Node (Str ''ViewA'') (Str ''ViewA segment'') None None None None
                 (Some [AlphaNode, BetaNode])"

text \<open>A view whose display names order its children against their directory names:
  directory \<^verbatim>\<open>a\<close> is renamed \<^verbatim>\<open>Zed\<close>, directory \<^verbatim>\<open>b\<close> keeps \<^verbatim>\<open>B\<close>.\<close>

definition Renamed :: entries where
  "Renamed = [(''a'', Dir [(''_settings.js'', File (Module (Obj [(''name'', Str ''Zed'')])))]),
              (''b'', Dir [])]"

definition RenamedChildren :: "node list" where
  "RenamedChildren =
     [Node (Str ''B'') (Str ''B segment'') None None None (Some (Num 1000)) None,
      Node (Str ''Zed'') (Str ''A segment'') None None None (Some (Num 1000)) None]"

definition RenamedNode :: node where
  "RenamedNode = Node (Str ''V'') (Str ''V segment'') None None None None (Some RenamedChildren)"

text \<open>
  The name formatting as the specification words it: hyphens become spaces, then the first
  letter of every word is uppercased, words being split at whitespace.
\<close>

fun isSpace :: "char \<Rightarrow> bool" where
  "isSpace c = (c = CHR '' '' \<or> c = CHR 0x09 \<or> c = CHR 0x0A \<or> c = CHR 0x0B \<or> c = CHR 0x0C \<or> c = CHR 0x0D)"

fun spec_capitalize :: "bool \<Rightarrow> string \<Rightarrow> string" where
  "spec_capitalize start [] = []"
| "spec_capitalize start (c # cs) =
     (if isSpace c then c # spec_capitalize True cs
      else (if start then toUpperCase c else c) # spec_capitalize False cs)"

definition spec_formatName :: "string \<Rightarrow> string" where
  "spec_formatName s = spec_capitalize True (replaceHyphens s)"

text \<open>Directories used as examples: a \<^verbatim>\<open>name\<close> override, attribution fields, a size of
  zero.\<close>

definition Overridden :: entries where
  "Overridden = [(''_settings.js'', File (Module (Obj [(''name'', Str ''Bar'')])))]"

definition Attributed :: entries where
  "Attributed = [(''_settings.js'', File (Module (Obj
      [(''owner'', Str ''Team A''), (''contactEmail'', Str ''a@example.com'')])))]"

definition Contacted :: entries where
  "Contacted = [(''_settings.js'', File (Module (Obj [(''contact'', Str ''#payments'')])))]"

definition TimeAndAttendance :: node where
  "TimeAndAttendance = Node (Str ''Time And Attendance'') (Str ''Time And Attendance segment'')
                         None None None (Some (Num 1000)) None"

definition ZeroSize :: entries where
  "ZeroSize = [(''_settings.js'', File (Module (Obj [(''size'', Num 0)])))]"

section \<open>Metadata that fails to load\<close>

text \<open>A view whose own metadata and that of \<^verbatim>\<open>billing\<close> throw an Error, and the same
  view where the module of \<^verbatim>\<open>billing\<close> throws \<^verbatim>\<open>null\<close>.\<close>

definition Malformed :: entries where
  "Malformed =
     [(''_settings.js'', File (Throws (ThrownOther ''Unexpected token''))),
      (''billing'', Dir [(''_settings.js'', File (Throws (ThrownOther ''x is not defined'')))]),
      (''audit-log'', Dir [(''_settings.js'', File (Module (Obj [(''owner'', Str ''Ops'')])))])]"

definition MalformedNode :: node where
  "MalformedNode =
     Node (Str ''Core'') (Str ''Core segment'') None None None None
       (Some [Node (Str ''Audit Log'') (Str ''Audit Log segment'') None (Some (Str ''Ops'')) None
                (Some (Num 1000)) None,
              Node (Str ''Billing'') (Str ''Billing segment'') None None None (Some (Num 1000)) None])"

section \<open>Directory listings in another order\<close>

text \<open>\<open>canon\<close> lists the entries of every directory in the order of their names, at any
  depth: two trees with the same canonical form hold the same entries and differ at most in
  the order \<^verbatim>\<open>readdirSync\<close> enumerates them.\<close>

primrec canonEntry :: "fsentry \<Rightarrow> fsentry" where
  "canonEntry (File r) = File r"
| "canonEntry (Dir es) = Dir (sort_key fst (map (map_prod id canonEntry) es))"

definition canon :: "entries \<Rightarrow> entries" where
  "canon es = sort_key fst (map (map_prod id canonEntry) es)"

text \<open>The files a run writes, in order; creating the output directory is not one.\<close>

fun isWrite :: "effect \<Rightarrow> bool" where
  "isWrite (WriteFile path content) = True"
| "isWrite (Mkdir path) = False"

definition filesWritten :: "console list \<times> effect list \<times> (js_error + (string \<times> node) list) \<Rightarrow> effect list" where
  "filesWritten r = filter isWrite (fst (snd r))"

text \<open>A printer of JSON values without escapes or indentation; it instantiates
  \<open>stringify\<close> in examples.\<close>

fun joinWith :: "string \<Rightarrow> string list \<Rightarrow> string" where
  "joinWith sep [] = []"
| "joinWith sep [x] = x"
| "joinWith sep (x # y # ys) = x @ sep @ joinWith sep (y # ys)"

definition quoted :: "string \<Rightarrow> string" where
  "quoted s = CHR 0x22 # s @ [CHR 0x22]"

primrec compactJson :: "json \<Rightarrow> string" where
  "compactJson (JPrim p) = (case p of Str s \<Rightarrow> quoted s | _ \<Rightarrow> ToString p)"
| "compactJson (JArray xs) = ''['' @ joinWith '','' (map compactJson xs) @ '']''"
| "compactJson (JObject ps) =
     ''{'' @ joinWith '','' (map (\<lambda>kv. quoted (fst kv) @ '':'' @ snd kv) (map (map_prod id compactJson) ps)) @ ''}''"

text \<open>Two data directories with the same content, enumerated in different orders.\<close>

definition RootA :: fsentry where
  "RootA = Dir [(''ViewA'', Dir ViewA), (''.git'', Dir []), (''README.md'', File (Throws (ThrownOther ''not a module'')))]"

definition RootB :: fsentry where
  "RootB = Dir [(''README.md'', File (Throws (ThrownOther ''not a module''))), (''.git'', Dir []), (''ViewA'', Dir (rev ViewA))]"


text \<open>The view of \<open>Malformed\<close> when the module of \<^verbatim>\<open>billing\<close> throws \<^verbatim>\<open>null\<close> and the
  others load.\<close>

definition ThrowsNull :: entries where
  "ThrowsNull =
     [(''_settings.js'', File (Module (Obj []))),
      (''billing'', Dir [(''_settings.js'', File (Throws ThrownNull))]),
      (''audit-log'', Dir [(''_settings.js'', File (Module (Obj [(''owner'', Str ''Ops'')])))])]"

section \<open>Collation\<close>

text \<open>
  \<^verbatim>\<open>localeCompare\<close> on names made of ASCII letters, digits and spaces, in the default
  collation: the strings are compared without regard to case first, and strings that are
  equal up to case are ordered at the first place where they differ, lowercase first.
\<close>

definition foldCase :: "char \<Rightarrow> char" where
  "foldCase c = (if CHR ''A'' \<le> c \<and> c \<le> CHR ''Z'' then char_of (of_char c + (32::nat)) else c)"

definition localeCompareLetters :: "string \<Rightarrow> string \<Rightarrow> int" where
  "localeCompareLetters a b =
     (if map foldCase a < map foldCase b then -1
      else if map foldCase b < map foldCase a then 1
      else if b < a then -1 else if a < b then 1 else 0)"

text \<open>Two directories whose names differ in case only.\<close>

definition CaseView :: entries where
  "CaseView = [(''AB'', Dir []), (''Ab'', Dir [])]"

definition CaseChildren :: "node list" where
  "CaseChildren =
     [Node (Str ''Ab'') (Str ''Ab segment'') None None None (Some (Num 1000)) None,
      Node (Str ''AB'') (Str ''AB segment'') None None None (Some (Num 1000)) None]"

definition CaseNode :: node where
  "CaseNode = Node (Str ''V'') (Str ''V segment'') None None None None (Some CaseChildren)"

section \<open>Facts about the sort and the recursion\<close>

lemma snd_loadSettings: "snd (loadSettings es sp) = Inr s \<Longrightarrow> s = settingsOf es"
  by (auto simp: loadSettings_def settingsOf_def
           split: option.splits fsentry.splits import_result.splits thrown.splits)

lemma build_loaded:
  assumes "buildFromDirectory lc es p nm = (w, Inr t)"
  shows "snd (loadSettings es (path_join p ''_settings.js'')) = Inr (settingsOf es)"
proof (cases "snd (loadSettings es (path_join p ''_settings.js''))")
  case (Inl e)
  with assms show ?thesis by (simp add: buildFromDirectory.simps Let_def)
next
  case (Inr s)
  with snd_loadSettings [OF Inr] show ?thesis by simp
qed

lemma build_leaf_ok:
  assumes "subdirNames es = []" and "snd (loadSettings es (path_join p ''_settings.js'')) = Inr s"
  shows "buildFromDirectory lc es p nm =
    (fst (loadSettings es (path_join p ''_settings.js'')),
     Inr (nodeOf s nm (Some (js_or (getProp s ''size'') (Num LEAF_SIZE))) None))"
  using assms by (simp add: buildFromDirectory.simps nodeOf_def Let_def)

lemma build_leaf:
  assumes "subdirNames es = []" and "buildFromDirectory lc es p nm = (w, Inr t)"
  shows "t = nodeOf (settingsOf es) nm (Some (js_or (getProp (settingsOf es) ''size'') (Num LEAF_SIZE))) None"
  using assms build_leaf_ok [OF assms(1) build_loaded [OF assms(2)], of lc nm] by simp

lemma build_branch:
  assumes "subdirNames es \<noteq> []" and "buildFromDirectory lc es p nm = (w, Inr t)"
  shows "\<exists>w' cs cs'. buildChildren lc es p (subdirNames es) = (w', Inr cs)
           \<and> array_sort (compareNames lc) cs = Inr cs'
           \<and> w = fst (loadSettings es (path_join p ''_settings.js'')) @ w'
           \<and> t = nodeOf (settingsOf es) nm None (Some cs')"
  using assms build_loaded [OF assms(2)]
  by (auto simp add: buildFromDirectory.simps nodeOf_def Let_def
           split: prod.splits sum.splits)

lemma buildChildren_Cons:
  assumes "buildChildren lc es p (s # ss) = (w, Inr cs)"
  shows "\<exists>ces w1 c w2 cs'. readdir es s = Some ces
           \<and> buildFromDirectory lc ces (path_join p s) s = (w1, Inr c)
           \<and> buildChildren lc es p ss = (w2, Inr cs') \<and> cs = c # cs' \<and> w = w1 @ w2"
  using assms by (auto split: option.splits prod.splits sum.splits)

lemma insertBy_mset:
  "insertBy cmp x ys = Inr zs \<Longrightarrow> mset zs = add_mset x (mset ys)"
  by (induction ys arbitrary: zs) (auto split: sum.splits if_splits)

lemma sortLoop_mset:
  "sortLoop cmp acc xs = Inr ys \<Longrightarrow> mset ys = mset acc + mset xs"
proof (induction xs arbitrary: acc)
  case Nil
  then show ?case by simp
next
  case (Cons x xs)
  from Cons.prems obtain acc' where a: "insertBy cmp x acc = Inr acc'" and s: "sortLoop cmp acc' xs = Inr ys"
    by (auto split: sum.splits)
  from Cons.IH [OF s] insertBy_mset [OF a] show ?case by simp
qed

lemma array_sort_mset: "array_sort cmp xs = Inr ys \<Longrightarrow> mset ys = mset xs"
  using sortLoop_mset [of cmp "[]" xs ys] by (simp add: array_sort_def)

lemma array_sort_set: "array_sort cmp xs = Inr ys \<Longrightarrow> set ys = set xs"
  using array_sort_mset [of cmp xs ys] by (metis set_mset_mset)

lemma array_sort_length: "array_sort cmp xs = Inr ys \<Longrightarrow> length ys = length xs"
  using array_sort_mset [of cmp xs ys] by (metis size_mset)

lemma buildChildren_length:
  "buildChildren lc es p ss = (w, Inr cs) \<Longrightarrow> length cs = length ss"
proof (induction ss arbitrary: w cs)
  case Nil
  then show ?case by simp
next
  case (Cons s ss)
  from buildChildren_Cons [OF Cons.prems] obtain c w2 cs' where
    "buildChildren lc es p ss = (w2, Inr cs')" "cs = c # cs'" by blast
  with Cons.IH show ?case by simp
qed

text \<open>A property of the Node built at a leaf and at a branch holds at every Node of every
  compiled tree.\<close>

lemma build_nodes_aux:
  assumes leaf: "\<And>lc nm ds co ow ct v. P lc (Node nm ds co ow ct (Some (js_or v (Num LEAF_SIZE))) None)"
      and branch: "\<And>lc nm ds co ow ct cs cs0. cs \<noteq> [] \<Longrightarrow> array_sort (compareNames lc) cs0 = Inr cs
                     \<Longrightarrow> P lc (Node nm ds co ow ct None (Some cs))"
  shows "\<forall>w t. buildFromDirectory lc es p nm = (w, Inr t) \<longrightarrow> (\<forall>n \<in> set (subnodes t). P lc n)"
    and "\<forall>w cs. buildChildren lc es p ss = (w, Inr cs) \<longrightarrow> (\<forall>c \<in> set cs. \<forall>n \<in> set (subnodes c). P lc n)"
proof (induction lc es p nm and lc es p ss rule: buildFromDirectory_buildChildren.induct)
  case (1 lc es dirPath nodeName)
  show ?case
  proof (intro allI impI)
    fix w t
    assume b: "buildFromDirectory lc es dirPath nodeName = (w, Inr t)"
    show "\<forall>n \<in> set (subnodes t). P lc n"
    proof (cases "subdirNames es = []")
      case True
      from build_leaf [OF True b] show ?thesis by (auto simp: nodeOf_def intro: leaf)
    next
      case False
      from build_branch [OF False b] obtain w' cs cs' where
        bc: "buildChildren lc es dirPath (subdirNames es) = (w', Inr cs)" and
        so: "array_sort (compareNames lc) cs = Inr cs'" and
        t: "t = nodeOf (settingsOf es) nodeName None (Some cs')"
        by blast
      have ih: "\<forall>c \<in> set cs. \<forall>n \<in> set (subnodes c). P lc n"
        using "1.IH" [OF refl refl build_loaded [OF b] refl refl refl refl refl refl False] bc
        by blast
      have "length cs' = length (subdirNames es)"
        using array_sort_length [OF so] buildChildren_length [OF bc] by simp
      with False have ne: "cs' \<noteq> []" by auto
      have "P lc t" unfolding t nodeOf_def by (rule branch [OF ne so])
      moreover have "\<forall>c \<in> set cs'. \<forall>n \<in> set (subnodes c). P lc n"
        using ih array_sort_set [OF so] by simp
      ultimately show ?thesis by (auto simp: t nodeOf_def)
    qed
  qed
next
  case (2 lc es dirPath)
  show ?case by simp
next
  case (3 lc es dirPath subdir rest)
  show ?case
  proof (intro allI impI)
    fix w cs
    assume b: "buildChildren lc es dirPath (subdir # rest) = (w, Inr cs)"
    from buildChildren_Cons [OF b] obtain ces w1 c w2 cs' where
      r: "readdir es subdir = Some ces" and
      c: "buildFromDirectory lc ces (path_join dirPath subdir) subdir = (w1, Inr c)" and
      rest: "buildChildren lc es dirPath rest = (w2, Inr cs')" and cs: "cs = c # cs'"
      by blast
    have "\<forall>n \<in> set (subnodes c). P lc n" using "3.IH"(1) [OF r] c by blast
    moreover have "\<forall>c \<in> set cs'. \<forall>n \<in> set (subnodes c). P lc n"
      using "3.IH"(2) [OF r c [symmetric] refl] rest by blast
    ultimately show "\<forall>c \<in> set cs. \<forall>n \<in> set (subnodes c). P lc n" by (simp add: cs)
  qed
qed

lemma ordinalCompare_consistent: "consistentComparator ordinalCompare"
  by (auto simp: consistentComparator_def ordinalCompare_def split: if_splits)

lemma compareNames_Inr:
  "compareNames lc a b = Inr v \<Longrightarrow> v = lc (ToString (name a)) (ToString (name b))"
  by (auto simp: compareNames_def split: jsprim.splits)

lemma insertBy_sorted:
  assumes con: "consistentComparator lc"
  shows "sorted_wrt (nameLe lc) ys \<Longrightarrow> insertBy (compareNames lc) x ys = Inr zs
         \<Longrightarrow> sorted_wrt (nameLe lc) zs"
proof (induction ys arbitrary: zs)
  case Nil
  then show ?case by auto
next
  case (Cons y ys)
  from Cons.prems(2) obtain v where v: "compareNames lc x y = Inr v"
    by (auto split: sum.splits)
  have vv: "v = lc (ToString (name x)) (ToString (name y))" by (rule compareNames_Inr [OF v])
  show ?case
  proof (cases "v < 0")
    case True
    with Cons.prems(2) v have zs: "zs = x # y # ys" by simp
    have xy: "nameLe lc x y" using True vv by (simp add: nameLe_def)
    have "\<forall>z \<in> set ys. nameLe lc x z"
    proof
      fix z assume "z \<in> set ys"
      with Cons.prems(1) have "nameLe lc y z" by auto
      with xy con show "nameLe lc x z"
        unfolding nameLe_def consistentComparator_def by blast
    qed
    with xy Cons.prems(1) show ?thesis by (simp add: zs)
  next
    case False
    with Cons.prems(2) v obtain zs' where i: "insertBy (compareNames lc) x ys = Inr zs'" and zs: "zs = y # zs'"
      by (auto split: sum.splits)
    from Cons.prems(1) have "sorted_wrt (nameLe lc) ys" by simp
    from Cons.IH [OF this i] have s: "sorted_wrt (nameLe lc) zs'" .
    have yx: "nameLe lc y x" using False vv con
      unfolding nameLe_def consistentComparator_def by auto
    have "set zs' = insert x (set ys)" using insertBy_mset [OF i] by (metis set_mset_mset set_mset_add_mset_insert)
    with yx Cons.prems(1) s show ?thesis by (auto simp: zs)
  qed
qed

lemma sortLoop_sorted:
  assumes con: "consistentComparator lc"
  shows "sorted_wrt (nameLe lc) acc \<Longrightarrow> sortLoop (compareNames lc) acc xs = Inr ys
         \<Longrightarrow> sorted_wrt (nameLe lc) ys"
proof (induction xs arbitrary: acc)
  case Nil
  then show ?case by simp
next
  case (Cons x xs)
  from Cons.prems(2) obtain acc' where a: "insertBy (compareNames lc) x acc = Inr acc'"
    and s: "sortLoop (compareNames lc) acc' xs = Inr ys"
    by (auto split: sum.splits)
  show ?case by (rule Cons.IH [OF insertBy_sorted [OF con Cons.prems(1) a] s])
qed

lemma array_sort_sorted:
  "consistentComparator lc \<Longrightarrow> array_sort (compareNames lc) xs = Inr ys \<Longrightarrow> sorted_wrt (nameLe lc) ys"
  using sortLoop_sorted [of lc "[]" xs ys] by (simp add: array_sort_def)

section \<open>Leaf and branch Nodes\<close>

lemma keys_size_children:
  "(''size'' \<in> set (objectKeys (nodeToJson n))) = (leafSize n \<noteq> None)
   \<and> (''children'' \<in> set (objectKeys (nodeToJson n))) = (children n \<noteq> None)"
  by (cases n) (auto simp: optField_def split: option.splits)

text \<open>
  C1. In a tree compiled by \<open>buildFromDirectory\<close>, every Node carries exactly one of
  \<^verbatim>\<open>size\<close> and \<^verbatim>\<open>children\<close>, as a field and as a key of the object, and a \<^verbatim>\<open>children\<close>
  array is never empty.
\<close>

theorem leaf_branch_exclusive:
  assumes "buildFromDirectory lc es p nm = (w, Inr t)" and "n \<in> set (subnodes t)"
  shows "((leafSize n \<noteq> None \<and> children n = None) \<or> (leafSize n = None \<and> children n \<noteq> None))
         \<and> children n \<noteq> Some []
         \<and> ((''size'' \<in> set (objectKeys (nodeToJson n))) \<noteq> (''children'' \<in> set (objectKeys (nodeToJson n))))"
proof -
  have "\<forall>w t. buildFromDirectory lc es p nm = (w, Inr t) \<longrightarrow>
          (\<forall>n \<in> set (subnodes t).
             ((leafSize n \<noteq> None \<and> children n = None) \<or> (leafSize n = None \<and> children n \<noteq> None))
             \<and> children n \<noteq> Some [])"
    by (rule build_nodes_aux(1)) simp_all
  with assms have "((leafSize n \<noteq> None \<and> children n = None) \<or> (leafSize n = None \<and> children n \<noteq> None))
         \<and> children n \<noteq> Some []" by blast
  then show ?thesis using keys_size_children [of n] by blast
qed

theorem leaf_branch_exclusive_witness:
  "buildFromDirectory ordinalCompare ViewA ''DataRoot/ViewA'' ''ViewA'' = ([], Inr ViewANode)
   \<and> BetaNode \<in> set (subnodes ViewANode)
   \<and> leafSize BetaNode \<noteq> None \<and> children BetaNode = None
   \<and> leafSize ViewANode = None \<and> children ViewANode = Some [AlphaNode, BetaNode]"
proof -
  have b: "buildFromDirectory ordinalCompare ViewA ''DataRoot/ViewA'' ''ViewA'' = ([], Inr ViewANode)"
    by code_simp
  have m: "BetaNode \<in> set (subnodes ViewANode)"
    by code_simp
  have f: "leafSize ViewANode = None \<and> children ViewANode = Some [AlphaNode, BetaNode]"
    by (simp add: ViewANode_def)
  from leaf_branch_exclusive [OF b m] b m f show ?thesis
    by (simp add: BetaNode_def)
qed

section \<open>Order of the children\<close>

lemma localeCompareLetters_consistent: "consistentComparator localeCompareLetters"
  unfolding consistentComparator_def localeCompareLetters_def
  by (auto split: if_splits)

text \<open>
  C3, as stated, fails: the children are in the order of \<^verbatim>\<open>localeCompare\<close>, which is not
  the lexicographic order of \<^verbatim>\<open><=\<close> on strings. \<^verbatim>\<open>localeCompare\<close> ranks \<^verbatim>\<open>Ab\<close> before
  \<^verbatim>\<open>AB\<close>, so the directories \<^verbatim>\<open>AB\<close> and \<^verbatim>\<open>Ab\<close> compile to the children \<^verbatim>\<open>Ab\<close>, \<^verbatim>\<open>AB\<close> in
  this order, while \<^verbatim>\<open>"Ab" <= "AB"\<close> is false.
\<close>

theorem children_code_unit_order_counterexample:
  "buildFromDirectory localeCompareLetters CaseView ''DataRoot/V'' ''V'' = ([], Inr CaseNode)
   \<and> children CaseNode = Some CaseChildren
   \<and> map name CaseChildren = [Str ''Ab'', Str ''AB'']
   \<and> \<not> (''Ab'' \<le> ''AB'')"
  by code_simp

text \<open>
  C3, amended. The \<^verbatim>\<open>children\<close> of every branch Node of a compiled tree are in ascending
  order of their display names (the \<^verbatim>\<open>name\<close> field, not the directory name) under the
  collation of \<^verbatim>\<open>localeCompare\<close>, for any consistent \<^verbatim>\<open>localeCompare\<close>: every child
  compares at most equal to each later one, so
  \<^verbatim>\<open>children[i].name.localeCompare(children[i+1].name) <= 0\<close> at every index.
\<close>

theorem children_sorted_by_name:
  assumes "consistentComparator lc" and "buildFromDirectory lc es p nm = (w, Inr t)"
      and "n \<in> set (subnodes t)" and "children n = Some cs"
  shows "sorted_wrt (\<lambda>a b. lc (ToString (name a)) (ToString (name b)) \<le> 0) cs
         \<and> (\<forall>i. Suc i < length cs \<longrightarrow> lc (ToString (name (cs ! i))) (ToString (name (cs ! Suc i))) \<le> 0)"
proof -
  have "\<forall>w t. buildFromDirectory lc es p nm = (w, Inr t) \<longrightarrow>
          (\<forall>n \<in> set (subnodes t). consistentComparator lc \<longrightarrow>
             (\<forall>cs. children n = Some cs \<longrightarrow> sorted_wrt (nameLe lc) cs))"
    by (rule build_nodes_aux(1)) (auto intro: array_sort_sorted)
  with assms have s: "sorted_wrt (nameLe lc) cs" by blast
  then have "\<forall>i. Suc i < length cs \<longrightarrow> nameLe lc (cs ! i) (cs ! Suc i)"
    by (simp add: sorted_wrt_iff_nth_less)
  with s show ?thesis unfolding nameLe_def by simp
qed

theorem children_sorted_by_name_witness:
  "consistentComparator ordinalCompare
   \<and> buildFromDirectory ordinalCompare Renamed ''DataRoot/V'' ''V'' = ([], Inr RenamedNode)
   \<and> RenamedNode \<in> set (subnodes RenamedNode)
   \<and> children RenamedNode = Some RenamedChildren
   \<and> map name RenamedChildren = [Str ''B'', Str ''Zed'']
   \<and> ordinalCompare (ToString (name (RenamedChildren ! 0))) (ToString (name (RenamedChildren ! Suc 0))) \<le> 0
   \<and> consistentComparator localeCompareLetters
   \<and> buildFromDirectory localeCompareLetters CaseView ''DataRoot/V'' ''V'' = ([], Inr CaseNode)
   \<and> CaseNode \<in> set (subnodes CaseNode)
   \<and> children CaseNode = Some CaseChildren
   \<and> localeCompareLetters (ToString (name (CaseChildren ! 0))) (ToString (name (CaseChildren ! Suc 0))) \<le> 0"
proof -
  have b: "buildFromDirectory ordinalCompare Renamed ''DataRoot/V'' ''V'' = ([], Inr RenamedNode)"
    by code_simp
  have m: "RenamedNode \<in> set (subnodes RenamedNode)"
    by code_simp
  have c: "children RenamedNode = Some RenamedChildren"
    by (simp add: RenamedNode_def)
  have n: "map name RenamedChildren = [Str ''B'', Str ''Zed'']"
    by (simp add: RenamedChildren_def)
  have l: "Suc 0 < length RenamedChildren"
    by (simp add: RenamedChildren_def)
  from children_sorted_by_name [OF ordinalCompare_consistent b m c] l
  have r: "ordinalCompare (ToString (name (RenamedChildren ! 0))) (ToString (name (RenamedChildren ! Suc 0))) \<le> 0"
    by blast
  have b': "buildFromDirectory localeCompareLetters CaseView ''DataRoot/V'' ''V'' = ([], Inr CaseNode)"
    by code_simp
  have m': "CaseNode \<in> set (subnodes CaseNode)"
    by code_simp
  have c': "children CaseNode = Some CaseChildren"
    by (simp add: CaseNode_def)
  have l': "Suc 0 < length CaseChildren"
    by (simp add: CaseChildren_def)
  from children_sorted_by_name [OF localeCompareLetters_consistent b' m' c'] l'
  have r': "localeCompareLetters (ToString (name (CaseChildren ! 0))) (ToString (name (CaseChildren ! Suc 0))) \<le> 0"
    by blast
  from ordinalCompare_consistent b m c n r localeCompareLetters_consistent b' m' c' r'
  show ?thesis by blast
qed

section \<open>Name and description\<close>

lemma build_name:
  assumes "buildFromDirectory lc es p nm = (w, Inr t)"
  shows "name t = js_or (getProp (settingsOf es) ''name'') (Str (formatNodeName nm))"
proof (cases "subdirNames es = []")
  case True
  from build_leaf [OF True assms] show ?thesis by (auto simp: nodeOf_def)
next
  case False
  from build_branch [OF False assms] show ?thesis by (auto simp: nodeOf_def)
qed

lemma build_description:
  assumes "buildFromDirectory lc es p nm = (w, Inr t)"
  shows "description t = js_or (getProp (settingsOf es) ''description'') (Str (formatNodeName nm @ '' segment''))"
proof (cases "subdirNames es = []")
  case True
  from build_leaf [OF True assms] show ?thesis by (auto simp: nodeOf_def)
next
  case False
  from build_branch [OF False assms] show ?thesis by (auto simp: nodeOf_def)
qed

text \<open>
  C2, as stated, fails: the default description is built from the formatted directory
  name even when the metadata overrides \<^verbatim>\<open>name\<close>. Directory \<^verbatim>\<open>foo\<close> with
  \<^verbatim>\<open>{name: "Bar"}\<close> gets the description \<^verbatim>\<open>Foo segment\<close>, not \<^verbatim>\<open>Bar segment\<close>.
\<close>

theorem description_uses_resolved_name_counterexample:
  "buildFromDirectory ordinalCompare Overridden ''DataRoot/V/foo'' ''foo''
     = ([], Inr (Node (Str ''Bar'') (Str ''Foo segment'') None None None (Some (Num 1000)) None))
   \<and> Str ''Foo segment'' \<noteq> Str (''Bar'' @ '' segment'')"
  by code_simp

text \<open>
  C2, amended. The \<^verbatim>\<open>description\<close> of a compiled directory is the metadata
  \<^verbatim>\<open>description\<close> when that is truthy (present and not empty), and otherwise the
  formatted directory base name followed by \<^verbatim>\<open> segment\<close>, whether or not the metadata
  overrides \<^verbatim>\<open>name\<close>.
\<close>

theorem description_default:
  assumes "buildFromDirectory lc es p nm = (w, Inr t)"
  shows "description t =
           (if truthy (getProp (settingsOf es) ''description'')
            then getProp (settingsOf es) ''description''
            else Str (formatNodeName nm @ '' segment''))"
  using build_description [OF assms] by (simp add: js_or_def)

theorem description_default_witness:
  "buildFromDirectory ordinalCompare Overridden ''DataRoot/V/foo'' ''foo''
     = ([], Inr (Node (Str ''Bar'') (Str ''Foo segment'') None None None (Some (Num 1000)) None))
   \<and> \<not> truthy (getProp (settingsOf Overridden) ''description'')
   \<and> description (Node (Str ''Bar'') (Str ''Foo segment'') None None None (Some (Num 1000)) None)
       = Str (formatNodeName ''foo'' @ '' segment'')"
proof -
  have b: "buildFromDirectory ordinalCompare Overridden ''DataRoot/V/foo'' ''foo''
     = ([], Inr (Node (Str ''Bar'') (Str ''Foo segment'') None None None (Some (Num 1000)) None))"
    by code_simp
  have f: "\<not> truthy (getProp (settingsOf Overridden) ''description'')"
    by code_simp
  from description_default [OF b] f b show ?thesis by simp
qed

section \<open>The two-level scenario\<close>

text \<open>
  C4, as stated, fails: \<^verbatim>\<open>ViewA\<close> has no hyphen, so it compiles to the name \<^verbatim>\<open>ViewA\<close> and
  the description \<^verbatim>\<open>ViewA segment\<close>, not \<^verbatim>\<open>View A\<close> and \<^verbatim>\<open>View A segment\<close>.
\<close>

theorem two_level_scenario_counterexample:
  "snd (buildFromDirectory ordinalCompare ViewA ''DataRoot/ViewA'' ''ViewA'')
     \<noteq> Inr (Node (Str ''View A'') (Str ''View A segment'') None None None None
              (Some [AlphaNode, BetaNode]))"
  by code_simp

lemma subdirNames_ViewA: "subdirNames ViewA = [''Alpha'', ''Beta'']"
  by code_simp

text \<open>
  C4, amended. Whenever \<^verbatim>\<open>localeCompare\<close> does not put \<^verbatim>\<open>Beta\<close> before \<^verbatim>\<open>Alpha\<close>,
  compiling \<^verbatim>\<open>ViewA\<close> yields the Node named \<^verbatim>\<open>ViewA\<close>, described \<^verbatim>\<open>ViewA segment\<close>, with
  the children \<^verbatim>\<open>Alpha\<close> (\<^verbatim>\<open>Alpha segment\<close>, size 1000) and \<^verbatim>\<open>Beta\<close> (\<^verbatim>\<open>b\<close>, size 1000) in
  this order, and logs nothing.
\<close>

theorem two_level_scenario:
  assumes "\<not> lc ''Beta'' ''Alpha'' < 0"
  shows "buildFromDirectory lc ViewA ''DataRoot/ViewA'' ''ViewA'' = ([], Inr ViewANode)"
  using assms
  apply (simp add: buildFromDirectory.simps [of _ ViewA] subdirNames_ViewA Let_def)
  apply (simp add: ViewA_def buildFromDirectory.simps subdirNames_def loadSettings_def js_or_def ifSet_def
      array_sort_def compareNames_def ViewANode_def AlphaNode_def BetaNode_def LEAF_SIZE_def
      formatNodeName_def replaceHyphens_def isWordChar_def toUpperCase_def)
  done

theorem two_level_scenario_witness:
  "\<not> ordinalCompare ''Beta'' ''Alpha'' < 0
   \<and> buildFromDirectory ordinalCompare ViewA ''DataRoot/ViewA'' ''ViewA'' = ([], Inr ViewANode)"
proof -
  have h: "\<not> ordinalCompare ''Beta'' ''Alpha'' < 0" by code_simp
  from two_level_scenario [of ordinalCompare, OF h] h show ?thesis by simp
qed

section \<open>Attribution fields\<close>

text \<open>
  C5. The source copies \<^verbatim>\<open>settings.contact\<close>; it never reads \<^verbatim>\<open>contactEmail\<close>. A leaf
  directory \<^verbatim>\<open>payments\<close> whose metadata is
  \<^verbatim>\<open>{owner: "Team A", contactEmail: "a@example.com"}\<close> compiles to a Node with the keys
  \<^verbatim>\<open>name\<close>, \<^verbatim>\<open>description\<close>, \<^verbatim>\<open>owner\<close> and \<^verbatim>\<open>size\<close> only, while the key \<^verbatim>\<open>contact\<close> of
  \<^verbatim>\<open>{contact: "#payments"}\<close> is copied.
\<close>

theorem contactEmail_not_copied:
  "buildFromDirectory ordinalCompare Attributed ''DataRoot/V/payments'' ''payments''
     = ([], Inr (Node (Str ''Payments'') (Str ''Payments segment'') None (Some (Str ''Team A'')) None
                   (Some (Num 1000)) None))
   \<and> objectKeys (nodeToJson (Node (Str ''Payments'') (Str ''Payments segment'') None
                   (Some (Str ''Team A'')) None (Some (Num 1000)) None))
       = [''name'', ''description'', ''owner'', ''size'']
   \<and> buildFromDirectory ordinalCompare Contacted ''DataRoot/V/payments'' ''payments''
     = ([], Inr (Node (Str ''Payments'') (Str ''Payments segment'') None None (Some (Str ''#payments''))
                   (Some (Num 1000)) None))"
  by code_simp

section \<open>Name formatting\<close>

lemma capitalize_length: "length (capitalize prev s) = length s"
  by (induction s arbitrary: prev) auto

lemma capitalize_nth:
  "i < length s \<Longrightarrow>
   capitalize prev s ! i =
     (if isWordChar (s ! i) \<and> \<not> (if i = 0 then prev else isWordChar (s ! (i - 1)))
      then toUpperCase (s ! i) else s ! i)"
proof (induction s arbitrary: prev i)
  case Nil
  then show ?case by simp
next
  case (Cons c cs)
  show ?case
  proof (cases i)
    case 0
    then show ?thesis by simp
  next
    case (Suc j)
    with Cons.prems have "j < length cs" by simp
    from Cons.IH [OF this, of "isWordChar c"] Suc show ?thesis
      by (cases j) auto
  qed
qed

lemma isWordChar_replaceHyphens:
  "i < length s \<Longrightarrow> isWordChar (replaceHyphens s ! i) = isWordChar (s ! i)"
  by (auto simp: replaceHyphens_def isWordChar_def)

lemma formatNodeName_length: "length (formatNodeName nm) = length nm"
  by (simp add: formatNodeName_def capitalize_length replaceHyphens_def)

lemma formatNodeName_nth:
  assumes i: "i < length nm"
  shows "formatNodeName nm ! i =
             (let c = (if nm ! i = CHR ''-'' then CHR '' '' else nm ! i)
              in if isWordChar c \<and> (i = 0 \<or> \<not> isWordChar (nm ! (i - 1))) then toUpperCase c else c)"
proof -
  from i have l: "i < length (replaceHyphens nm)" by (simp add: replaceHyphens_def)
  have r: "replaceHyphens nm ! i = (if nm ! i = CHR ''-'' then CHR '' '' else nm ! i)"
    using i by (simp add: replaceHyphens_def)
  have p: "i \<noteq> 0 \<Longrightarrow> isWordChar (replaceHyphens nm ! (i - 1)) = isWordChar (nm ! (i - 1))"
    using i by (intro isWordChar_replaceHyphens) simp
  show ?thesis
    unfolding formatNodeName_def capitalize_nth [OF l] Let_def r [symmetric]
    using p by auto
qed

text \<open>
  C7, read with the specification's words (a word ends at whitespace), fails: the source
  starts a word after every character outside \<^verbatim>\<open>[A-Za-z0-9_]\<close>, so \<^verbatim>\<open>foo.bar\<close> becomes
  \<^verbatim>\<open>Foo.Bar\<close>, not \<^verbatim>\<open>Foo.bar\<close>.
\<close>

theorem formatNodeName_counterexample:
  "formatNodeName ''foo.bar'' = ''Foo.Bar'' \<and> spec_formatName ''foo.bar'' = ''Foo.bar''
   \<and> formatNodeName ''foo.bar'' \<noteq> spec_formatName ''foo.bar''"
  by code_simp

text \<open>
  C7, amended. When the metadata supplies no truthy \<^verbatim>\<open>name\<close>, the \<^verbatim>\<open>name\<close> of the compiled
  Node is the directory base name with every hyphen replaced by a space and the first
  character of every word uppercased, a word being a maximal run of characters of
  \<^verbatim>\<open>[A-Za-z0-9_]\<close>: the character at \<open>i\<close> is uppercased exactly when it is a word
  character and \<open>i = 0\<close> or the character before is not one. In particular
  \<^verbatim>\<open>time-and-attendance\<close> gives \<^verbatim>\<open>Time And Attendance\<close>.
\<close>

theorem formatNodeName_words:
  "(buildFromDirectory lc es p nm = (w, Inr t) \<and> \<not> truthy (getProp (settingsOf es) ''name'')
      \<longrightarrow> name t = Str (formatNodeName nm))
   \<and> length (formatNodeName nm) = length nm
   \<and> (\<forall>i < length nm.
         formatNodeName nm ! i =
           (let c = (if nm ! i = CHR ''-'' then CHR '' '' else nm ! i)
            in if isWordChar c \<and> (i = 0 \<or> \<not> isWordChar (nm ! (i - 1))) then toUpperCase c else c))
   \<and> formatNodeName ''time-and-attendance'' = ''Time And Attendance''"
proof -
  have "formatNodeName ''time-and-attendance'' = ''Time And Attendance''"
    by code_simp
  then show ?thesis
    using build_name [of lc es p nm w t] formatNodeName_length [of nm] formatNodeName_nth [of _ nm]
    by (simp add: js_or_def)
qed

theorem formatNodeName_words_witness:
  "buildFromDirectory ordinalCompare [] ''DataRoot/V/time-and-attendance'' ''time-and-attendance''
     = ([], Inr TimeAndAttendance)
   \<and> \<not> truthy (getProp (settingsOf []) ''name'')
   \<and> name TimeAndAttendance = Str (formatNodeName ''time-and-attendance'')
   \<and> (4::nat) < length ''time-and-attendance''
   \<and> formatNodeName ''time-and-attendance'' ! 4 = CHR '' ''
   \<and> formatNodeName ''time-and-attendance'' ! 5 = CHR ''A''"
proof -
  have b: "buildFromDirectory ordinalCompare [] ''DataRoot/V/time-and-attendance'' ''time-and-attendance''
     = ([], Inr TimeAndAttendance)"
    by code_simp
  have f: "\<not> truthy (getProp (settingsOf []) ''name'')"
    by code_simp
  have l: "(4::nat) < length ''time-and-attendance''" by simp
  have e: "formatNodeName ''time-and-attendance'' ! 4 = CHR '' ''
           \<and> formatNodeName ''time-and-attendance'' ! 5 = CHR ''A''"
    by code_simp
  from formatNodeName_words [of ordinalCompare "[]" "''DataRoot/V/time-and-attendance''"
         "''time-and-attendance''" "[]" TimeAndAttendance] b f l e
  show ?thesis by blast
qed

section \<open>Default leaf size\<close>

lemma leafSize_truthy:
  "\<forall>w t. buildFromDirectory lc es p nm = (w, Inr t) \<longrightarrow>
          (\<forall>n \<in> set (subnodes t). \<forall>v. leafSize n = Some v \<longrightarrow> truthy v)"
  by (rule build_nodes_aux(1)) (simp_all add: js_or_def LEAF_SIZE_def)

text \<open>
  C10. A leaf directory whose metadata supplies a falsy \<^verbatim>\<open>size\<close> (such as 0) compiles to
  a Node of size 1000, and no Node of a compiled tree has size 0.
\<close>

theorem falsy_size_defaults:
  "(subdirNames es = [] \<and> map_of es ''_settings.js'' = Some (File (Module (Obj ps)))
      \<and> map_of ps ''size'' = Some v \<and> \<not> truthy v
      \<longrightarrow> (\<exists>w t. buildFromDirectory lc es p nm = (w, Inr t) \<and> leafSize t = Some (Num 1000)))
   \<and> (buildFromDirectory lc es p nm = (w, Inr t) \<and> n \<in> set (subnodes t)
      \<longrightarrow> leafSize n \<noteq> Some (Num 0))"
proof (intro conjI impI)
  assume a: "subdirNames es = [] \<and> map_of es ''_settings.js'' = Some (File (Module (Obj ps)))
      \<and> map_of ps ''size'' = Some v \<and> \<not> truthy v"
  then have l: "snd (loadSettings es (path_join p ''_settings.js'')) = Inr (Obj ps)"
    by (simp add: loadSettings_def)
  from a show "\<exists>w t. buildFromDirectory lc es p nm = (w, Inr t) \<and> leafSize t = Some (Num 1000)"
    using build_leaf_ok [OF _ l, of lc nm] by (simp add: nodeOf_def js_or_def LEAF_SIZE_def)
next
  assume "buildFromDirectory lc es p nm = (w, Inr t) \<and> n \<in> set (subnodes t)"
  with leafSize_truthy [of lc es p nm] have "\<forall>v. leafSize n = Some v \<longrightarrow> truthy v" by blast
  then show "leafSize n \<noteq> Some (Num 0)" by auto
qed

theorem falsy_size_defaults_witness:
  "subdirNames ZeroSize = []
   \<and> map_of ZeroSize ''_settings.js'' = Some (File (Module (Obj [(''size'', Num 0)])))
   \<and> map_of [(''size'', Num 0)] ''size'' = Some (Num 0) \<and> \<not> truthy (Num 0)
   \<and> buildFromDirectory ordinalCompare ZeroSize ''DataRoot/V/x'' ''x''
       = ([], Inr (Node (Str ''X'') (Str ''X segment'') None None None (Some (Num 1000)) None))
   \<and> leafSize (Node (Str ''X'') (Str ''X segment'') None None None (Some (Num 1000)) None) \<noteq> Some (Num 0)"
proof -
  let ?t = "Node (Str ''X'') (Str ''X segment'') None None None (Some (Num 1000)) None"
  have s: "subdirNames ZeroSize = []" by code_simp
  have m: "map_of ZeroSize ''_settings.js'' = Some (File (Module (Obj [(''size'', Num 0)])))"
    by (simp add: ZeroSize_def)
  have b: "buildFromDirectory ordinalCompare ZeroSize ''DataRoot/V/x'' ''x'' = ([], Inr ?t)"
    by code_simp
  have n: "?t \<in> set (subnodes ?t)" by simp
  from falsy_size_defaults [of ZeroSize "[(''size'', Num 0)]" "Num 0" ordinalCompare "''DataRoot/V/x''" "''x''" "[]" ?t ?t]
    s m b n
  show ?thesis by simp
qed

section \<open>Malformed metadata\<close>

text \<open>
  C8. The \<^verbatim>\<open>catch\<close> block absorbs a failing import only when the thrown value has a
  \<^verbatim>\<open>message\<close> to read. When the module of \<^verbatim>\<open>billing\<close> throws \<^verbatim>\<open>null\<close>, reading
  \<^verbatim>\<open>error.message\<close> raises a TypeError inside the block: no warning is logged and the
  compilation of \<^verbatim>\<open>billing\<close>, of its sibling and of the whole view ends with that
  exception. With modules that throw an Error the same view compiles, with the defaults
  and one warning for each.
\<close>

theorem thrown_null_aborts_view:
  "buildFromDirectory ordinalCompare ThrowsNull ''DataRoot/core'' ''core''
     = ([], Inl (TypeError (PropertyOfNullish Null ''message'')))
   \<and> buildFromDirectory ordinalCompare Malformed ''DataRoot/core'' ''core''
     = ([WarnLoad ''DataRoot/core/_settings.js'' (Message ''Unexpected token''),
         WarnLoad ''DataRoot/core/billing/_settings.js'' (Message ''x is not defined'')],
        Inr MalformedNode)"
  by code_simp

section \<open>Listing the views\<close>

text \<open>
  C9, as stated, fails on an existing path that is not a directory: \<^verbatim>\<open>existsSync\<close> holds,
  and \<^verbatim>\<open>readdirSync\<close> throws.
\<close>

theorem getViewDirectories_file_counterexample:
  "getViewDirectories (Some (File (Module (Prim Undefined)))) ''DataRoot''
     = ([], Inl (FsError ''ENOTDIR: DataRoot''))"
  by (simp add: getViewDirectories_def)

text \<open>
  C9, amended. On a path that does not exist \<open>getViewDirectories\<close> returns the empty
  list, raises nothing and emits one warning; on an existing directory it returns, in
  ascending order, the names of the immediate subdirectories that do not start with a dot,
  each as often as it is listed.
\<close>

theorem getViewDirectories_listing:
  "getViewDirectories None dataDir = ([Warn (''Data directory not found: '' @ dataDir)], Inr [])
   \<and> (\<exists>ns. getViewDirectories (Some (Dir es)) dataDir = ([], Inr ns) \<and> sorted ns
          \<and> set ns = {n. \<exists>e. (n, e) \<in> set es \<and> isDirectory e \<and> \<not> startsWith n CHR ''.''}
          \<and> mset ns = mset (map fst (filter (\<lambda>(n, e). isDirectory e \<and> \<not> startsWith n CHR ''.'') es)))"
  by (auto simp: getViewDirectories_def intro: rev_image_eqI)

section \<open>Determinism of the written files\<close>

lemma map_of_insort: "map_of (insort_key fst x xs) = map_of (x # xs)"
proof (induction xs)
  case Nil
  then show ?case by simp
next
  case (Cons y ys)
  show ?case
  proof (cases "fst x \<le> fst y")
    case True
    then show ?thesis by simp
  next
    case False
    then have "fst x \<noteq> fst y" by auto
    with False Cons show ?thesis by (auto simp: fun_eq_iff)
  qed
qed

lemma map_of_sort_key: "map_of (sort_key fst xs) = map_of xs"
  by (induction xs) (simp_all add: map_of_insort)

lemma map_of_map_entry: "map_of (map (map_prod id f) es) k = map_option f (map_of es k)"
  by (induction es) auto

lemma map_of_canon: "map_of (canon es) k = map_option canonEntry (map_of es k)"
  by (simp add: canon_def map_of_sort_key map_of_map_entry)

lemma loadSettings_canon: "loadSettings (canon es) sp = loadSettings es sp"
  by (cases "map_of es ''_settings.js''")
     (auto simp: loadSettings_def map_of_canon
           split: fsentry.splits import_result.splits thrown.splits)

lemma readdir_insort: "readdir (insort_key fst x xs) s = readdir (x # xs) s"
proof (induction xs)
  case Nil
  then show ?case by simp
next
  case (Cons y ys)
  obtain n e where x: "x = (n, e)" by (cases x)
  obtain m d where y: "y = (m, d)" by (cases y)
  show ?case
  proof (cases "fst x \<le> fst y")
    case True
    then show ?thesis by simp
  next
    case False
    then have "n \<noteq> m" using x y by auto
    with False Cons x y show ?thesis by (cases e; cases d) auto
  qed
qed

lemma readdir_cong_head: "readdir xs s = readdir ys s \<Longrightarrow> readdir (x # xs) s = readdir (x # ys) s"
  by (cases x; cases "snd x") auto

lemma readdir_sort_key: "readdir (sort_key fst xs) s = readdir xs s"
proof (induction xs)
  case Nil
  then show ?case by simp
next
  case (Cons x xs)
  have "readdir (sort_key fst (x # xs)) s = readdir (x # sort_key fst xs) s"
    by (simp add: readdir_insort)
  also have "\<dots> = readdir (x # xs) s" by (rule readdir_cong_head [OF Cons.IH])
  finally show ?case .
qed

lemma readdir_map_canon:
  "readdir (map (map_prod id canonEntry) es) s = map_option canon (readdir es s)"
  by (induction es s rule: readdir.induct) (auto simp: canon_def)

lemma readdir_canon: "readdir (canon es) s = map_option canon (readdir es s)"
  using readdir_map_canon [of es s] by (simp add: canon_def [of es] readdir_sort_key)

lemma isDirectory_canonEntry: "isDirectory (canonEntry e) = isDirectory e"
  by (cases e) auto

lemma sort_mset_cong: "mset xs = mset ys \<Longrightarrow> sort xs = sort ys"
  by (rule properties_for_sort) simp_all

lemma names_canon:
  assumes "\<And>n e. P (n, canonEntry e) = P (n, e)"
  shows "sort (map fst (filter P (canon es))) = sort (map fst (filter P es))"
proof -
  have "map fst (filter P (map (map_prod id canonEntry) es)) = map fst (filter P es)"
    by (induction es) (auto simp: assms)
  then have "mset (map fst (filter P (canon es))) = mset (map fst (filter P es))"
    by (metis canon_def mset_filter mset_map mset_sort)
  then show ?thesis by (rule sort_mset_cong)
qed

lemma subdirNames_canon: "subdirNames (canon es) = subdirNames es"
  unfolding subdirNames_def by (rule names_canon) (simp add: isDirectory_canonEntry)

lemma build_canon:
  "buildFromDirectory lc (canon es) p nm = buildFromDirectory lc es p nm"
  "buildChildren lc (canon es) p ss = buildChildren lc es p ss"
proof (induction lc es p nm and lc es p ss rule: buildFromDirectory_buildChildren.induct)
  case (1 lc es dirPath nodeName)
  show ?case
  proof (cases "snd (loadSettings es (path_join dirPath ''_settings.js''))")
    case (Inl e)
    then show ?thesis
      by (simp add: buildFromDirectory.simps [of lc "canon es"] buildFromDirectory.simps [of lc es]
            loadSettings_canon Let_def)
  next
    case (Inr s)
    show ?thesis
    proof (cases "subdirNames es = []")
      case True
      with Inr show ?thesis
        by (simp add: buildFromDirectory.simps [of lc "canon es"] buildFromDirectory.simps [of lc es]
              subdirNames_canon loadSettings_canon Let_def)
    next
      case False
      from "1.IH" [OF refl refl Inr refl refl refl refl refl refl False] Inr
      show ?thesis
        by (simp add: buildFromDirectory.simps [of lc "canon es"] buildFromDirectory.simps [of lc es]
              subdirNames_canon loadSettings_canon Let_def)
    qed
  qed
next
  case (2 lc es dirPath)
  show ?case by simp
next
  case (3 lc es dirPath subdir rest)
  show ?case
  proof (cases "readdir es subdir")
    case None
    then show ?thesis by (simp add: readdir_canon)
  next
    case (Some ces)
    note a = "3.IH"(1) [OF Some]
    obtain w r where b: "buildFromDirectory lc ces (path_join dirPath subdir) subdir = (w, r)"
      by (cases "buildFromDirectory lc ces (path_join dirPath subdir) subdir")
    show ?thesis
    proof (cases r)
      case (Inl e)
      with a b Some show ?thesis by (simp add: readdir_canon)
    next
      case (Inr c)
      from "3.IH"(2) [OF Some b [symmetric] Inr]
      have "buildChildren lc (canon es) dirPath rest = buildChildren lc es dirPath rest" .
      with a b Some Inr show ?thesis by (simp add: readdir_canon)
    qed
  qed
qed

lemma generateViews_canon:
  "generateViews lc stringify (canon es) dataDir outputDir acc views
     = generateViews lc stringify es dataDir outputDir acc views"
proof (induction views arbitrary: acc)
  case Nil
  then show ?case by simp
next
  case (Cons v views)
  show ?case
  proof (cases "readdir es v")
    case None
    then show ?thesis by (simp add: readdir_canon)
  next
    case (Some ves)
    with Cons show ?thesis by (simp add: readdir_canon build_canon(1))
  qed
qed

lemma getViewDirectories_canon:
  "getViewDirectories (map_option canonEntry root) dataDir = getViewDirectories root dataDir"
proof (cases root)
  case None
  then show ?thesis by simp
next
  case (Some r)
  show ?thesis
  proof (cases r)
    case (File x)
    with Some show ?thesis by simp
  next
    case (Dir es)
    have "sort (map fst (filter (\<lambda>(n, e). isDirectory e \<and> \<not> startsWith n CHR ''.'') (canon es)))
        = sort (map fst (filter (\<lambda>(n, e). isDirectory e \<and> \<not> startsWith n CHR ''.'') es))"
      by (rule names_canon) (simp add: isDirectory_canonEntry)
    with Some Dir show ?thesis by (simp add: getViewDirectories_def canon_def)
  qed
qed

lemma generateAll_canon:
  "generateAll lc stringify (map_option canonEntry root) dataDir outputDir ex
     = generateAll lc stringify root dataDir outputDir ex"
proof -
  have "(case map_option canonEntry root of Some (Dir es) \<Rightarrow> es | _ \<Rightarrow> [])
      = canon (case root of Some (Dir es) \<Rightarrow> es | _ \<Rightarrow> [])"
    by (auto simp: canon_def split: option.splits fsentry.splits)
  then show ?thesis
    unfolding generateAll_def getViewDirectories_canon
    by (simp add: generateViews_canon)
qed

lemma canon_permutation:
  assumes "mset es1 = mset es2" and "distinct (map fst es1)"
  shows "canon es1 = canon es2"
  unfolding canon_def
proof (rule sort_key_inj_key_eq)
  show "mset (map (map_prod id canonEntry) es1) = mset (sort_key fst (map (map_prod id canonEntry) es2))"
    using assms(1) by (metis mset_map mset_sort)
  have "map fst (map (map_prod id canonEntry) es1) = map fst es1" by simp
  with assms(2) have "distinct (map fst (map (map_prod id canonEntry) es1))" by simp
  then show "inj_on fst (set (map (map_prod id canonEntry) es1))" by (rule distinct_map [THEN iffD1, THEN conjunct2])
  show "sorted (map fst (sort_key fst (map (map_prod id canonEntry) es2)))" by simp
qed

lemma generateAll_outputExists:
  "filesWritten (generateAll lc stringify root dataDir outputDir ex)
     = filesWritten (generateAll lc stringify root dataDir outputDir True)
   \<and> fst (generateAll lc stringify root dataDir outputDir ex)
     = fst (generateAll lc stringify root dataDir outputDir True)
   \<and> snd (snd (generateAll lc stringify root dataDir outputDir ex))
     = snd (snd (generateAll lc stringify root dataDir outputDir True))"
  by (simp add: generateAll_def filesWritten_def Let_def split: prod.splits sum.splits)

lemma generateAll_same_content:
  assumes "map_option canonEntry root1 = map_option canonEntry root2"
  shows "filesWritten (generateAll lc stringify root1 dataDir outputDir ex1)
           = filesWritten (generateAll lc stringify root2 dataDir outputDir ex2)
         \<and> fst (generateAll lc stringify root1 dataDir outputDir ex1)
           = fst (generateAll lc stringify root2 dataDir outputDir ex2)
         \<and> snd (snd (generateAll lc stringify root1 dataDir outputDir ex1))
           = snd (snd (generateAll lc stringify root2 dataDir outputDir ex2))"
proof -
  have "generateAll lc stringify root1 dataDir outputDir True
      = generateAll lc stringify root2 dataDir outputDir True"
    using assms by (metis generateAll_canon)
  then show ?thesis
    using generateAll_outputExists [of lc stringify root1 dataDir outputDir ex1]
          generateAll_outputExists [of lc stringify root2 dataDir outputDir ex2]
    by simp
qed

text \<open>
  C6. The files \<open>generateAll\<close> writes are determined by the content of the data
  directory: two runs over trees with the same entries, whatever the order in which each
  directory is enumerated and whether or not the output directory exists yet, write the
  same files with the same bytes in the same order, log the same lines and return the same
  views. In particular this holds for two enumerations of one data directory with distinct
  entry names. The time stamp of the import URL only defeats the module cache; what a
  module exports is part of the content.
\<close>

theorem generateAll_deterministic:
  "(map_option canonEntry root1 = map_option canonEntry root2 \<longrightarrow>
      filesWritten (generateAll lc stringify root1 dataDir outputDir ex1)
        = filesWritten (generateAll lc stringify root2 dataDir outputDir ex2)
      \<and> fst (generateAll lc stringify root1 dataDir outputDir ex1)
        = fst (generateAll lc stringify root2 dataDir outputDir ex2)
      \<and> snd (snd (generateAll lc stringify root1 dataDir outputDir ex1))
        = snd (snd (generateAll lc stringify root2 dataDir outputDir ex2)))
   \<and> (mset es1 = mset es2 \<and> distinct (map fst es1) \<longrightarrow>
      filesWritten (generateAll lc stringify (Some (Dir es1)) dataDir outputDir ex1)
        = filesWritten (generateAll lc stringify (Some (Dir es2)) dataDir outputDir ex2))"
proof (intro conjI impI)
  assume a: "map_option canonEntry root1 = map_option canonEntry root2"
  from generateAll_same_content [OF a, of lc stringify dataDir outputDir ex1 ex2]
  show "filesWritten (generateAll lc stringify root1 dataDir outputDir ex1)
        = filesWritten (generateAll lc stringify root2 dataDir outputDir ex2)"
    and "fst (generateAll lc stringify root1 dataDir outputDir ex1)
        = fst (generateAll lc stringify root2 dataDir outputDir ex2)"
    and "snd (snd (generateAll lc stringify root1 dataDir outputDir ex1))
        = snd (snd (generateAll lc stringify root2 dataDir outputDir ex2))"
    by simp_all
next
  assume "mset es1 = mset es2 \<and> distinct (map fst es1)"
  then have "canon es1 = canon es2" by (simp add: canon_permutation)
  then have "map_option canonEntry (Some (Dir es1)) = map_option canonEntry (Some (Dir es2))"
    by (simp add: canon_def)
  from generateAll_same_content [OF this, of lc stringify dataDir outputDir ex1 ex2]
  show "filesWritten (generateAll lc stringify (Some (Dir es1)) dataDir outputDir ex1)
        = filesWritten (generateAll lc stringify (Some (Dir es2)) dataDir outputDir ex2)"
    by simp
qed

theorem generateAll_deterministic_witness:
  "map_option canonEntry (Some RootA) = map_option canonEntry (Some RootB)
   \<and> mset ViewA = mset (rev ViewA) \<and> distinct (map fst ViewA)
   \<and> RootA \<noteq> RootB
   \<and> filesWritten (generateAll ordinalCompare compactJson (Some RootA) ''src/data'' ''src/generated'' False)
       = [WriteFile ''src/generated/ViewA.js'' (moduleText compactJson (nodeToJson ViewANode)),
          WriteFile ''src/generated/index.js''
            (moduleText compactJson (JObject [(''ViewA'', nodeToJson ViewANode)]))]
   \<and> filesWritten (generateAll ordinalCompare compactJson (Some RootA) ''src/data'' ''src/generated'' False)
       = filesWritten (generateAll ordinalCompare compactJson (Some RootB) ''src/data'' ''src/generated'' True)
   \<and> filesWritten (generateAll ordinalCompare compactJson (Some (Dir ViewA)) ''src/data'' ''src/generated'' False)
       = filesWritten (generateAll ordinalCompare compactJson (Some (Dir (rev ViewA))) ''src/data'' ''src/generated'' True)"
proof -
  have c: "map_option canonEntry (Some RootA) = map_option canonEntry (Some RootB)"
    by code_simp
  have p: "mset ViewA = mset (rev ViewA) \<and> distinct (map fst ViewA)"
    by (simp add: ViewA_def)
  have d: "RootA \<noteq> RootB" by code_simp
  have a: "filesWritten (generateAll ordinalCompare compactJson (Some RootA) ''src/data'' ''src/generated'' False)
       = [WriteFile ''src/generated/ViewA.js'' (moduleText compactJson (nodeToJson ViewANode)),
          WriteFile ''src/generated/index.js''
            (moduleText compactJson (JObject [(''ViewA'', nodeToJson ViewANode)]))]"
    by code_simp
  note t = generateAll_deterministic [of "Some RootA" "Some RootB" ordinalCompare compactJson
         "''src/data''" "''src/generated''" False True ViewA "rev ViewA"]
  from t c have r1: "filesWritten (generateAll ordinalCompare compactJson (Some RootA) ''src/data'' ''src/generated'' False)
       = filesWritten (generateAll ordinalCompare compactJson (Some RootB) ''src/data'' ''src/generated'' True)"
    by blast
  from t p have r2: "filesWritten (generateAll ordinalCompare compactJson (Some (Dir ViewA)) ''src/data'' ''src/generated'' False)
       = filesWritten (generateAll ordinalCompare compactJson (Some (Dir (rev ViewA))) ''src/data'' ''src/generated'' True)"
    by blast
  from c p d a r1 r2 show ?thesis by blast
qed

end
